theory Spec2Isabelle
  imports Main "HOL-Library.Multiset" "HOL-Library.List_Lexorder" "HOL-Library.Char_ord"
begin

section \<open>Data model of gen\_results\_summary.py\<close>

text \<open>
  Exceptions the module can raise. \<open>ParseError\<close> stands for whatever the record parser
  raises on a file it cannot load.
\<close>

datatype error = TypeError | ValueError | AttributeError | ParseError

text \<open>
  The result of a test case: the record library gives \<open>None\<close> for a passed test and an
  instance of one of three sibling classes otherwise.
\<close>

datatype result_kind = Pass | Failure | Error | Skipped

datatype testcase = TestCase (name: string) (result: result_kind) (tc_time: int)

text \<open>
  A property is a name with a value. A properties collection is the sequence of its
  entries in insertion order; a name may repeat. The collection of a suite may be absent
  as a whole (\<open>None\<close>), which the lookups of the module test for.
\<close>

datatype property = Property (pname: string) (pvalue: string)

type_synonym properties = "property list"

text \<open>
  A test suite as the module reads it: its test cases in order, the counters of the
  record, the start timestamp, the host name and the properties child. The module tests
  \<open>tests\<close> against \<open>None\<close> in \<open>total_tests\<close>, so this counter is optional; the other
  counters and the times are whole numbers, printed with \<open>%d\<close>.
\<close>

record testsuite =
  testcases :: "testcase list"
  tests :: "int option"
  skipped :: int
  failures :: int
  errors :: int
  time :: int
  timestamp :: string
  hostname :: string
  child_Properties :: "properties option"

text \<open>\<open>testsuite.properties()\<close>: the entries of the properties child, none when it is absent.\<close>

definition properties :: "testsuite \<Rightarrow> properties" where
  "properties ts = (case child_Properties ts of None \<Rightarrow> [] | Some ps \<Rightarrow> ps)"

section \<open>String formatting\<close>

abbreviation NL :: char where
  "NL \<equiv> CHR 0x0A"

definition digit :: "nat \<Rightarrow> char" where
  "digit n = ''0123456789'' ! n"

fun dec :: "nat \<Rightarrow> string" where
  "dec n = (if n < 10 then [digit n] else dec (n div 10) @ [digit (n mod 10)])"

declare dec.simps [simp del]

text \<open>The conversion \<open>%d\<close> of a whole number.\<close>

definition fmt_d :: "int \<Rightarrow> string" where
  "fmt_d i = (if i < 0 then CHR ''-'' # dec (nat (- i)) else dec (nat i))"

text \<open>The conversion \<open>%s\<close> of a value that may be \<open>None\<close>.\<close>

definition fmt_s :: "string option \<Rightarrow> string" where
  "fmt_s v = (case v of None \<Rightarrow> ''None'' | Some s \<Rightarrow> s)"

text \<open>The conversion \<open>%-ws\<close>: the text, padded on the right with blanks to width \<open>w\<close>.\<close>

definition ljust :: "nat \<Rightarrow> string \<Rightarrow> string" where
  "ljust w s = s @ replicate (w - length s) CHR '' ''"

section \<open>Property lookups\<close>

fun first_value :: "properties \<Rightarrow> string \<Rightarrow> string option" where
  "first_value [] key = None"
| "first_value (prop # ps) key =
     (if pname prop = key then Some (pvalue prop) else first_value ps key)"

definition get_property :: "properties option \<Rightarrow> string \<Rightarrow> string option" where
  "get_property props key = (case props of None \<Rightarrow> None | Some ps \<Rightarrow> first_value ps key)"

text \<open>
  \<open>get_properties\<close> is a generator. Its model is the sequence of the values it yields,
  together with the way the iteration ends: \<open>None\<close> when it ends normally, the exception
  when it raises. With an absent collection the generator yields \<open>None\<close> and goes on to
  the loop over the collection, which raises since \<open>None\<close> is not iterable.
\<close>

definition get_properties :: "properties option \<Rightarrow> string \<Rightarrow> string option list \<times> error option" where
  "get_properties props key =
     (case props of
        None \<Rightarrow> ([None], Some TypeError)
      | Some ps \<Rightarrow> (map (\<lambda>prop. Some (pvalue prop)) (filter (\<lambda>prop. pname prop = key) ps), None))"

text \<open>
  \<open>remove_properties\<close> loops over the collection while it removes from it. The loop
  reads the live sequence by position: after the entry at position \<open>i\<close>, the next one
  is whatever stands at position \<open>i + 1\<close> then. \<open>remove\<close> deletes the first entry equal
  to the given one.
\<close>

function remove_loop :: "nat \<Rightarrow> string \<Rightarrow> properties \<Rightarrow> properties" where
  "remove_loop i key ps =
     (if i < length ps then
        (if pname (ps ! i) = key then remove_loop (i + 1) key (remove1 (ps ! i) ps)
         else remove_loop (i + 1) key ps)
      else ps)"
  by pat_completeness auto
termination
  by (relation "measure (\<lambda>(i, key, ps). length ps - i)") (auto simp: length_remove1)

declare remove_loop.simps [simp del]

definition remove_properties :: "properties option \<Rightarrow> string \<Rightarrow> properties option" where
  "remove_properties props key =
     (case props of None \<Rightarrow> None | Some ps \<Rightarrow> Some (remove_loop 0 key ps))"

section \<open>Compact lists of test names\<close>

text \<open>
  The loop of \<open>print_tests\<close> over the test cases, with its variables \<open>found\<close> and \<open>pos\<close>;
  the value is the text the loop writes from there on, the closing newline included.
\<close>

fun print_tests_loop :: "testcase list \<Rightarrow> result_kind \<Rightarrow> string \<Rightarrow> bool \<Rightarrow> nat \<Rightarrow> string" where
  "print_tests_loop [] result_type type_label found pos = (if found then [NL] else [])"
| "print_tests_loop (tc # tcs) result_type type_label found pos =
     (if result tc \<noteq> result_type then print_tests_loop tcs result_type type_label found pos
      else
        let head = (if \<not> found then ''  '' @ type_label @ '': '' else []);
            pos = (if \<not> found then length type_label + 4 else pos);
            name_len = length (name tc) + 1;
            pos = pos + name_len + 1;
            wrap = (if pos > 76 then NL # ''    '' else []);
            pos = (if pos > 76 then name_len + 5 else pos)
        in head @ wrap @ name tc @ '' '' @ print_tests_loop tcs result_type type_label True pos)"

definition print_tests :: "testsuite \<Rightarrow> result_kind \<Rightarrow> string \<Rightarrow> string" where
  "print_tests ts result_type type_label =
     print_tests_loop (testcases ts) result_type type_label False 0"

section \<open>Totals\<close>

fun total_tests :: "testsuite list \<Rightarrow> int" where
  "total_tests [] = 0"
| "total_tests (ts # tss) = (case tests ts of None \<Rightarrow> 0 | Some n \<Rightarrow> n) + total_tests tss"

text \<open>
  \<open>sum_testsuites\<close> adds the counters without a test against \<open>None\<close>: an absent
  \<open>tests\<close> counter raises. The value is the tuple in the order of the source,
  (tests, skipped, failures, errors, runtime).
\<close>

fun sum_loop :: "testsuite list \<Rightarrow> int \<times> int \<times> int \<times> int \<times> int \<Rightarrow>
    error + (int \<times> int \<times> int \<times> int \<times> int)" where
  "sum_loop [] acc = Inr acc"
| "sum_loop (ts # tss) (n, s, f, e, r) =
     (case tests ts of
        None \<Rightarrow> Inl TypeError
      | Some k \<Rightarrow> sum_loop tss (n + k, s + skipped ts, f + failures ts, e + errors ts, r + time ts))"

definition sum_testsuites :: "testsuite list \<Rightarrow> error + (int \<times> int \<times> int \<times> int \<times> int)" where
  "sum_testsuites testsuites = sum_loop testsuites (0, 0, 0, 0, 0)"

section \<open>Summary of one suite\<close>

definition status_of :: "result_kind \<Rightarrow> string" where
  "status_of r =
     (let status = ''Pass'';
          status = (if r = Failure then ''Failed'' else status);
          status = (if r = Skipped then ''Skipped'' else status);
          status = (if r = Error then ''Error'' else status)
      in status)"

definition verbose_line :: "testcase \<Rightarrow> string" where
  "verbose_line test_case =
     ''  '' @ ljust 12 (name test_case) @ '' '' @ ljust 8 (status_of (result test_case)) @ '' ''
       @ fmt_d (tc_time test_case) @ ''s'' @ [NL]"

definition config_name :: "testsuite \<Rightarrow> string option" where
  "config_name ts =
     (case get_property (Some (properties ts)) ''TESTCFG'' of
        None \<Rightarrow> get_property (Some (properties ts)) ''FSTESTCFG''
      | Some cfg \<Rightarrow> Some cfg)"

text \<open>
  \<open>print_summary\<close> raises at its first write when the \<open>tests\<close> counter is absent, before
  anything is written; otherwise its value is the text it writes.
\<close>

definition print_summary :: "testsuite \<Rightarrow> bool \<Rightarrow> error + string" where
  "print_summary ts verbose =
     (case tests ts of
        None \<Rightarrow> Inl TypeError
      | Some n \<Rightarrow>
          Inr (fmt_s (config_name ts) @ '': '' @ fmt_d n @ '' tests, ''
               @ (if failures ts > 0 then fmt_d (failures ts) @ '' failures, '' else [])
               @ (if errors ts > 0 then fmt_d (errors ts) @ '' errors, '' else [])
               @ (if skipped ts > 0 then fmt_d (skipped ts) @ '' skipped, '' else [])
               @ fmt_d (time ts) @ '' seconds'' @ [NL]
               @ (if verbose then concat (map verbose_line (testcases ts))
                  else
                    (if failures ts > 0 then
                       print_tests ts Failure ''Failures''
                       @ (if errors ts > 0 then print_tests ts Error ''Errors'' else [])
                     else []))))"

section \<open>Header and trailer\<close>

definition property_line :: "string \<Rightarrow> string option \<Rightarrow> string" where
  "property_line key v = ljust 10 (key @ '':'') @ '' '' @ fmt_s v @ [NL]"

definition print_property_line :: "properties option \<Rightarrow> string \<Rightarrow> string" where
  "print_property_line props key =
     (let v = get_property props key
      in if v \<noteq> None \<and> v \<noteq> Some [] then property_line key v else [])"

text \<open>
  \<open>print_properties\<close> writes one line for each value the generator yields; when the
  generator raises, the lines written so far stay written and the exception goes on.
\<close>

definition print_properties :: "properties option \<Rightarrow> string \<Rightarrow> string \<times> error option" where
  "print_properties props key =
     (case get_properties props key of
        (vals, ending) \<Rightarrow> (concat (map (property_line key) vals), ending))"

definition print_header :: "properties option \<Rightarrow> string" where
  "print_header props =
     print_property_line props ''TESTRUNID''
     @ print_property_line props ''KERNEL''
     @ print_property_line props ''CMDLINE''
     @ print_property_line props ''CPUS''
     @ print_property_line props ''MEM''
     @ print_property_line props ''MNTOPTS''
     @ [NL]"

definition print_trailer :: "properties option \<Rightarrow> string \<times> error option" where
  "print_trailer props =
     (let before = [NL] @ print_property_line props ''FSTESTIMG''
                   @ print_property_line props ''FSTESTPRJ''
      in case print_properties props ''FSTESTVER'' of
           (vers, Some e) \<Rightarrow> (before @ vers, Some e)
         | (vers, None) \<Rightarrow>
             (before @ vers
              @ print_property_line props ''FSTESTCFG''
              @ print_property_line props ''FSTESTSET''
              @ print_property_line props ''FSTESTEXC''
              @ print_property_line props ''FSTESTOPT''
              @ print_property_line props ''GCE ID'', None))"

section \<open>The directory of results and what is outside the module\<close>

text \<open>
  A directory: its name, the names of its files and its subdirectories, in the order
  the walk lists them.
\<close>

datatype dirtree = Dir (dname: string) (filenames: "string list") (subdirs: "dirtree list")

text \<open>
  What the module reads from outside: the directory tree at a path (\<open>None\<close> when there
  is no such directory), the record parser, the lines of a text file (\<open>None\<close> when
  opening it raises \<open>IOError\<close>), the test whether a path exists, and the conversion of
  a timestamp text to seconds, which is the library's \<open>strptime\<close> with the pattern
  \<open>%Y-%m-%dT%H:%M:%S\<close> followed by \<open>mktime\<close> in the local time zone.
\<close>

record world =
  tree_at :: "string \<Rightarrow> dirtree option"
  fromfile :: "string \<Rightarrow> error + testsuite"
  readlines :: "string \<Rightarrow> string list option"
  path_exists :: "string \<Rightarrow> bool"
  strptime_mktime :: "string \<Rightarrow> error + int"

definition path_join :: "string \<Rightarrow> string \<Rightarrow> string" where
  "path_join a b =
     (if b \<noteq> [] \<and> hd b = CHR ''/'' then b
      else if a = [] \<or> last a = CHR ''/'' then a @ b
      else a @ ''/'' @ b)"

text \<open>\<open>os.walk\<close>, top down: the triples (dirpath, dirnames, filenames).\<close>

fun walk :: "string \<Rightarrow> dirtree \<Rightarrow> (string \<times> string list \<times> string list) list" where
  "walk dirpath (Dir n files subs) =
     (dirpath, map dname subs, files)
     # concat (map (\<lambda>d. walk (path_join dirpath (dname d)) d) subs)"

definition get_results :: "world \<Rightarrow> string \<Rightarrow> string list" where
  "get_results w dirroot =
     (case tree_at w dirroot of
        None \<Rightarrow> []
      | Some t \<Rightarrow>
          map (\<lambda>(dirpath, dirs, filenames). dirpath @ ''/results.xml'')
            (filter (\<lambda>(dirpath, dirs, filenames). ''results.xml'' \<in> set filenames)
               (walk dirroot t)))"

definition parse_timestamp :: "world \<Rightarrow> string \<Rightarrow> error + int" where
  "parse_timestamp w ts = strptime_mktime w ts"

section \<open>The marker file of the LTM server\<close>

text \<open>\<open>line.split(': ', 1)\<close>: the text before and after the first \<open>': '\<close>, if there is one.\<close>

fun split_sep :: "string \<Rightarrow> (string \<times> string) option" where
  "split_sep [] = None"
| "split_sep (c # cs) =
     (if c = CHR '':'' \<and> cs \<noteq> [] \<and> hd cs = CHR '' '' then Some ([], tl cs)
      else (case split_sep cs of None \<Rightarrow> None | Some (k, v) \<Rightarrow> Some (c # k, v)))"

definition rstrip :: "char \<Rightarrow> string \<Rightarrow> string" where
  "rstrip c s = rev (dropWhile (\<lambda>x. x = c) (rev s))"

definition strip :: "char \<Rightarrow> string \<Rightarrow> string" where
  "strip c s = rstrip c (dropWhile (\<lambda>x. x = c) s)"

text \<open>\<open>props.add_property\<close>: appends the entry; on an absent collection it raises.\<close>

definition add_property :: "properties option \<Rightarrow> property \<Rightarrow> error + properties option" where
  "add_property props prop =
     (case props of None \<Rightarrow> Inl AttributeError | Some ps \<Rightarrow> Inr (Some (ps @ [prop])))"

text \<open>The loop over the lines of the marker file; the value is the collection after it.\<close>

fun marker_lines :: "string list \<Rightarrow> properties option \<Rightarrow> error + properties option" where
  "marker_lines [] props = Inr props"
| "marker_lines (line # lines) props =
     (case split_sep line of
        None \<Rightarrow> Inl ValueError
      | Some (key, v) \<Rightarrow>
          (let v = strip (CHR 0x22) (rstrip NL v)
           in case add_property (remove_properties props key) (Property key v) of
                Inl e \<Rightarrow> Inl e
              | Inr props \<Rightarrow> marker_lines lines props))"

text \<open>
  \<open>check_for_ltm\<close> changes the collection in place and returns the LTM flag; the model
  returns the flag with the collection after the call.
\<close>

definition check_for_ltm :: "world \<Rightarrow> string \<Rightarrow> properties option \<Rightarrow>
    error + (bool \<times> properties option)" where
  "check_for_ltm w results_dir props =
     (case readlines w (path_join results_dir ''ltm-run-stats'') of
        None \<Rightarrow> Inr (False, props)
      | Some lines \<Rightarrow>
          (case marker_lines lines props of
             Inl e \<Rightarrow> Inl e
           | Inr props \<Rightarrow>
               Inr (True, remove_properties (remove_properties props ''GCE ID'') ''FSTESTCFG'')))"

section \<open>The report\<close>

fun load_all :: "world \<Rightarrow> string list \<Rightarrow> error + testsuite list" where
  "load_all w [] = Inr []"
| "load_all w (filename # rest) =
     (case fromfile w filename of
        Inl e \<Rightarrow> Inl e
      | Inr r \<Rightarrow> (case load_all w rest of Inl e \<Rightarrow> Inl e | Inr rs \<Rightarrow> Inr (r # rs)))"

text \<open>
  \<open>sorted(reports, key=sort_by)\<close> computes the key of every suite first, raising at the
  first key that fails, and then sorts by the keys, ascending and stable.
\<close>

fun with_keys :: "('a \<Rightarrow> error + 'k) \<Rightarrow> 'a list \<Rightarrow> error + ('k \<times> 'a) list" where
  "with_keys f [] = Inr []"
| "with_keys f (x # xs) =
     (case f x of
        Inl e \<Rightarrow> Inl e
      | Inr k \<Rightarrow> (case with_keys f xs of Inl e \<Rightarrow> Inl e | Inr kxs \<Rightarrow> Inr ((k, x) # kxs)))"

definition sorted_reports :: "world \<Rightarrow> bool \<Rightarrow> testsuite list \<Rightarrow> error + testsuite list" where
  "sorted_reports w ltm reports =
     (if ltm then Inr (sort_key hostname reports)
      else (case with_keys (\<lambda>ts. parse_timestamp w (timestamp ts)) reports of
              Inl e \<Rightarrow> Inl e
            | Inr kxs \<Rightarrow> Inr (map snd (sort_key fst kxs))))"

text \<open>
  The loop over the sorted suites: the text written, and the exception if a suite
  raises, in which case the suites after it are not printed.
\<close>

fun print_reports :: "testsuite list \<Rightarrow> bool \<Rightarrow> string \<times> error option" where
  "print_reports [] verbose = ([], None)"
| "print_reports (ts # tss) verbose =
     (case print_summary ts verbose of
        Inl e \<Rightarrow> ([], Some e)
      | Inr txt \<Rightarrow> (case print_reports tss verbose of (rest, ending) \<Rightarrow> (txt @ rest, ending)))"

definition totals_line :: "int \<times> int \<times> int \<times> int \<times> int \<Rightarrow> string" where
  "totals_line t =
     (case t of (n, s, f, e, r) \<Rightarrow>
        ''Totals: '' @ fmt_d n @ '' tests, '' @ fmt_d s @ '' skipped, '' @ fmt_d f
        @ '' failures, '' @ fmt_d e @ '' errors, '' @ fmt_d r @ ''s'' @ [NL])"

text \<open>
  What a call of \<open>gen_results_summary\<close> does: its return value or exception, the output
  file it opened if any, the text it wrote to the output, and the operations on the
  archive path, in order.
\<close>

datatype fs_op = WriteArchive string "testsuite list" | Rename string string

record outcome =
  ret :: "error + nat"
  opened :: "string option"
  written :: string
  archive_ops :: "fs_op list"

definition merge_ops :: "world \<Rightarrow> string option \<Rightarrow> testsuite list \<Rightarrow> fs_op list" where
  "merge_ops w merge_fn combined =
     (case merge_fn of
        None \<Rightarrow> []
      | Some m \<Rightarrow>
          [WriteArchive (m @ ''.new'') combined]
          @ (if path_exists w m then [Rename m (m @ ''.bak'')] else [])
          @ [Rename (m @ ''.new'') m])"

definition gen_results_summary ::
    "world \<Rightarrow> string \<Rightarrow> string option \<Rightarrow> string option \<Rightarrow> bool \<Rightarrow> outcome" where
  "gen_results_summary w results_dir output_fn merge_fn verbose =
     (case load_all w (get_results w results_dir) of
        Inl e \<Rightarrow> \<lparr>ret = Inl e, opened = None, written = [], archive_ops = []\<rparr>
      | Inr [] \<Rightarrow> \<lparr>ret = Inr 0, opened = None, written = [], archive_ops = []\<rparr>
      | Inr (r0 # rs) \<Rightarrow>
          (let reports = r0 # rs in
           case check_for_ltm w results_dir (child_Properties r0) of
             Inl e \<Rightarrow> \<lparr>ret = Inl e, opened = output_fn, written = [], archive_ops = []\<rparr>
           | Inr (ltm, props) \<Rightarrow>
               (let hdr = print_header props;
                    verbose = (if total_tests reports < 30 then True else verbose)
                in case sorted_reports w ltm reports of
                     Inl e \<Rightarrow> \<lparr>ret = Inl e, opened = output_fn, written = hdr, archive_ops = []\<rparr>
                   | Inr order \<Rightarrow>
                       (case print_reports order verbose of
                          (body, Some e) \<Rightarrow>
                            \<lparr>ret = Inl e, opened = output_fn, written = hdr @ body, archive_ops = []\<rparr>
                        | (body, None) \<Rightarrow>
                            (case sum_testsuites reports of
                               Inl e \<Rightarrow>
                                 \<lparr>ret = Inl e, opened = output_fn, written = hdr @ body,
                                  archive_ops = []\<rparr>
                             | Inr totals \<Rightarrow>
                                 (case print_trailer props of
                                    (trl, Some e) \<Rightarrow>
                                      \<lparr>ret = Inl e, opened = output_fn,
                                       written = hdr @ body @ totals_line totals @ trl,
                                       archive_ops = []\<rparr>
                                  | (trl, None) \<Rightarrow>
                                      \<lparr>ret = Inr (length order), opened = output_fn,
                                       written = hdr @ body @ totals_line totals @ trl,
                                       archive_ops = merge_ops w merge_fn order\<rparr>))))))"

section \<open>The wording of the claims\<close>

text \<open>
  The definitions of this section follow the words of the specification, not the source;
  the theorems below compare them with the functions of the module.

  \<open>spec_first\<close> is the first value stored under a name, \<open>spec_config_name\<close> the
  configuration name of a summary line, \<open>spec_clause\<close> a clause that is present exactly
  when its count is positive, and \<open>spec_summary_line\<close> the summary line of a suite whose
  \<open>tests\<close> counter is \<open>n\<close>.
\<close>

definition spec_first :: "properties \<Rightarrow> string \<Rightarrow> string option" where
  "spec_first ps key =
     (case filter (\<lambda>prop. pname prop = key) ps of
        [] \<Rightarrow> None
      | prop # rest \<Rightarrow> Some (pvalue prop))"

definition spec_config_name :: "testsuite \<Rightarrow> string" where
  "spec_config_name ts =
     (case spec_first (properties ts) ''TESTCFG'' of
        Some cfg \<Rightarrow> cfg
      | None \<Rightarrow>
          (case spec_first (properties ts) ''FSTESTCFG'' of
             Some cfg \<Rightarrow> cfg
           | None \<Rightarrow> ''None''))"

definition spec_clause :: "int \<Rightarrow> string \<Rightarrow> string" where
  "spec_clause c what = (if c > 0 then fmt_d c @ '' '' @ what @ '', '' else [])"

definition spec_summary_line :: "testsuite \<Rightarrow> int \<Rightarrow> string" where
  "spec_summary_line ts n =
     spec_config_name ts @ '': '' @ fmt_d n @ '' tests, ''
     @ spec_clause (failures ts) ''failures''
     @ spec_clause (errors ts) ''errors''
     @ spec_clause (skipped ts) ''skipped''
     @ fmt_d (time ts) @ '' seconds'' @ [NL]"

text \<open>
  The wrapping rule as the module keeps it: a position counter that charges every name
  its length plus two. A name is wrapped exactly when the counter so increased passes 76,
  and the counter of a wrapped name starts again at its length plus six.
  \<open>spec_wrap_flags\<close> says for each name whether it is wrapped; \<open>spec_laid_out\<close> writes
  the names, each one whole and followed by a blank, a wrapped one after a newline and
  four blanks.
\<close>

fun spec_wrap_flags :: "nat \<Rightarrow> string list \<Rightarrow> bool list" where
  "spec_wrap_flags pos [] = []"
| "spec_wrap_flags pos (n # ns) =
     (if pos + (length n + 2) > 76 then True # spec_wrap_flags (length n + 6) ns
      else False # spec_wrap_flags (pos + (length n + 2)) ns)"

text \<open>
  The wrapping rule in the words of the specification: the column after the label, a
  name wrapped exactly when the name and its trailing blank would pass column 76.
\<close>

fun claimed_wrap_flags :: "nat \<Rightarrow> string list \<Rightarrow> bool list" where
  "claimed_wrap_flags pos [] = []"
| "claimed_wrap_flags pos (n # ns) =
     (if pos + (length n + 1) > 76 then True # claimed_wrap_flags (4 + (length n + 1)) ns
      else False # claimed_wrap_flags (pos + (length n + 1)) ns)"

definition spec_laid_out :: "bool list \<Rightarrow> string list \<Rightarrow> string" where
  "spec_laid_out ws ns =
     concat (map (\<lambda>(w, n). (if w then NL # ''    '' else []) @ n @ '' '') (zip ws ns))"

definition names_of :: "testsuite \<Rightarrow> result_kind \<Rightarrow> string list" where
  "names_of ts result_type =
     map name (filter (\<lambda>tc. result tc = result_type) (testcases ts))"

section \<open>Concrete suites and directories\<close>

text \<open>
  The suite of the example in the specification and in the docstring of
  \<open>print_summary\<close>: 244 tests, 5 errors, 25 skipped, no failure, 880 seconds.
\<close>

definition suite_bigalloc :: testsuite where
  "suite_bigalloc =
     \<lparr>testcases =
        [TestCase ''generic/219'' Error 4, TestCase ''generic/235'' Error 2,
         TestCase ''generic/422'' Error 3, TestCase ''generic/451'' Error 31,
         TestCase ''generic/456'' Error 5]
        @ replicate 25 (TestCase ''generic/050'' Skipped 0)
        @ replicate 214 (TestCase ''generic/001'' Pass 3),
      tests = Some 244, skipped = 25, failures = 0, errors = 5, time = 880,
      timestamp = ''2019-03-01T09:00:00'', hostname = ''xfstests-ltm-03'',
      child_Properties = Some [Property ''TESTCFG'' ''ext4/bigalloc'']\<rparr>"

text \<open>A suite with six failed tests, enough for a second line of names.\<close>

definition suite_wrap :: testsuite where
  "suite_wrap =
     \<lparr>testcases =
        [TestCase ''generic/001'' Failure 1, TestCase ''generic/002'' Failure 1,
         TestCase ''generic/003'' Failure 1, TestCase ''generic/004'' Failure 1,
         TestCase ''generic/005'' Failure 1, TestCase ''generic/006'' Failure 1],
      tests = Some 6, skipped = 0, failures = 6, errors = 0, time = 6,
      timestamp = ''2019-03-01T09:00:00'', hostname = ''xfstests-ltm-04'',
      child_Properties = Some [Property ''TESTCFG'' ''ext4/encrypt'']\<rparr>"

text \<open>A suite whose single failed test has a name of 63 characters.\<close>

definition suite_long :: testsuite where
  "suite_long =
     \<lparr>testcases = [TestCase (replicate 63 CHR ''x'') Failure 1],
      tests = Some 1, skipped = 0, failures = 1, errors = 0, time = 1,
      timestamp = ''2019-03-01T09:00:00'', hostname = ''xfstests-ltm-05'',
      child_Properties = Some [Property ''TESTCFG'' ''ext4/4k'']\<rparr>"

text \<open>Two suites of one run, and the directory that holds their record files.\<close>

definition suite_a :: testsuite where
  "suite_a =
     \<lparr>testcases = [TestCase ''generic/001'' Pass 2, TestCase ''generic/002'' Failure 7],
      tests = Some 2, skipped = 0, failures = 1, errors = 0, time = 9,
      timestamp = ''2019-03-01T10:00:00'', hostname = ''xfstests-ltm-02'',
      child_Properties =
        Some [Property ''TESTRUNID'' ''run-1'', Property ''FSTESTCFG'' ''ext4/4k'',
              Property ''FSTESTVER'' ''e2fsprogs 1.45'', Property ''FSTESTVER'' ''xfstests 2019'']\<rparr>"

definition suite_b :: testsuite where
  "suite_b =
     \<lparr>testcases = [TestCase ''generic/001'' Pass 3],
      tests = Some 40, skipped = 39, failures = 0, errors = 0, time = 3,
      timestamp = ''2019-03-01T11:30:00'', hostname = ''xfstests-ltm-01'',
      child_Properties = Some [Property ''TESTCFG'' ''ext4/1k'']\<rparr>"

definition results_tree :: dirtree where
  "results_tree =
     Dir ''results'' [''runtests.log'']
       [Dir ''ext4-4k'' [''results.xml''] [], Dir ''ext4-1k'' [''results.xml'', ''log''] []]"

text \<open>The run without a marker file, the same run with one, and a run of one small suite.\<close>

definition world_plain :: world where
  "world_plain =
     \<lparr>tree_at = (\<lambda>p. if p = ''results'' then Some results_tree else None),
      fromfile = (\<lambda>p. if p = ''results/ext4-4k/results.xml'' then Inr suite_a
                       else if p = ''results/ext4-1k/results.xml'' then Inr suite_b
                       else Inl ParseError),
      readlines = (\<lambda>p. None),
      path_exists = (\<lambda>p. False),
      strptime_mktime = (\<lambda>s. if s = ''2019-03-01T10:00:00'' then Inr 1551434400
                              else if s = ''2019-03-01T11:30:00'' then Inr 1551439800
                              else Inl ValueError)\<rparr>"

definition world_ltm :: world where
  "world_ltm =
     world_plain\<lparr>readlines :=
       (\<lambda>p. if p = ''results/ltm-run-stats''
             then Some [''TESTRUNID: '' @ [CHR 0x22] @ ''ltm-7'' @ [CHR 0x22, NL]]
             else None)\<rparr>"

definition world_small :: world where
  "world_small =
     world_plain\<lparr>tree_at :=
       (\<lambda>p. if p = ''results''
             then Some (Dir ''results'' [] [Dir ''ext4-4k'' [''results.xml''] []])
             else None)\<rparr>"

text \<open>A directory of results without any record file.\<close>

definition world_empty :: world where
  "world_empty =
     world_plain\<lparr>tree_at :=
       (\<lambda>p. if p = ''results''
             then Some (Dir ''results'' [''README''] [Dir ''ext4-4k'' [''log''] []])
             else None)\<rparr>"

text \<open>A marker file with one line, \<open>FSTESTVER: "1.0"\<close>.\<close>

definition world_marker :: world where
  "world_marker =
     world_plain\<lparr>readlines :=
       (\<lambda>p. if p = ''results/ltm-run-stats''
             then Some [''FSTESTVER: '' @ [CHR 0x22] @ ''1.0'' @ [CHR 0x22, NL]]
             else None)\<rparr>"

section \<open>Property lookups and removal\<close>

lemma first_value_spec: "first_value ps key = spec_first ps key"
  by (induction ps) (auto simp: spec_first_def)

text \<open>
  Claim C10. For every property name, when the properties collection is absent, the
  values \<open>get_properties\<close> yields are not an empty sequence: the first one is the absent
  sentinel \<open>None\<close>, and the iteration then ends with an exception instead of ending
  normally.
\<close>

theorem get_properties_absent:
  "fst (get_properties None key) \<noteq> []
   \<and> hd (fst (get_properties None key)) = None
   \<and> snd (get_properties None key) = Some TypeError"
  by (simp add: get_properties_def)

text \<open>Removal leaves a collection alone in which no entry has the name.\<close>

lemma remove_loop_absent:
  "\<forall>prop \<in> set ps. pname prop \<noteq> key \<Longrightarrow> remove_loop i key ps = ps"
proof (induction i key ps rule: remove_loop.induct)
  case (1 i key ps)
  show ?case
  proof (cases "i < length ps")
    case True
    then have "pname (ps ! i) \<noteq> key" using "1.prems" by simp
    then show ?thesis using True "1.IH"(2) "1.prems" by (simp add: remove_loop.simps [of i])
  next
    case False
    then show ?thesis by (simp add: remove_loop.simps [of i])
  qed
qed

text \<open>
  Claim C2, at two adjacent entries of one name. The claim says that
  \<open>remove_properties\<close> deletes every entry of the name; the loop deletes the first
  entry, the second moves to the position the loop has passed, and it stays.
\<close>

theorem remove_properties_adjacent:
  "remove_properties
     (Some [Property ''FSTESTVER'' ''e2fsprogs 1.45'', Property ''FSTESTVER'' ''xfstests 2019''])
     ''FSTESTVER''
   = Some [Property ''FSTESTVER'' ''xfstests 2019'']"
  by code_simp

text \<open>
  Claim C3, at a marker file whose one line sets \<open>FSTESTVER\<close> and a collection with two
  entries of that name. The claim says that applying the marker twice gives the
  collection that applying it once gives. The first application leaves one of the two
  prior values beside the new one; the second removes that prior value and leaves the
  new value twice.
\<close>

theorem check_for_ltm_twice:
  "check_for_ltm world_marker ''results''
     (Some [Property ''FSTESTVER'' ''e2fsprogs 1.45'', Property ''FSTESTVER'' ''xfstests 2019''])
   = Inr (True, Some [Property ''FSTESTVER'' ''xfstests 2019'', Property ''FSTESTVER'' ''1.0''])
   \<and> check_for_ltm world_marker ''results''
     (Some [Property ''FSTESTVER'' ''xfstests 2019'', Property ''FSTESTVER'' ''1.0''])
   = Inr (True, Some [Property ''FSTESTVER'' ''1.0'', Property ''FSTESTVER'' ''1.0''])"
  by code_simp

section \<open>Compact lists of test names: the layout\<close>

lemma spec_laid_out_Cons:
  "spec_laid_out (w # ws) (n # ns) =
     (if w then NL # ''    '' else []) @ n @ '' '' @ spec_laid_out ws ns"
  by (simp add: spec_laid_out_def)

lemma print_tests_loop_found:
  "print_tests_loop tcs rt label True pos =
     (let ns = map name (filter (\<lambda>tc. result tc = rt) tcs)
      in spec_laid_out (spec_wrap_flags pos ns) ns @ [NL])"
proof (induction tcs arbitrary: pos)
  case Nil
  show ?case by (simp add: spec_laid_out_def)
next
  case (Cons tc tcs)
  show ?case
  proof (cases "result tc = rt")
    case False
    then show ?thesis using Cons.IH [of pos] by simp
  next
    case True
    then show ?thesis
      using Cons.IH [of "length (name tc) + 6"] Cons.IH [of "pos + (length (name tc) + 2)"]
      by (simp add: Let_def spec_laid_out_Cons add.commute add.left_commute)
  qed
qed

lemma print_tests_loop_first:
  "print_tests_loop tcs rt label False pos =
     (let ns = map name (filter (\<lambda>tc. result tc = rt) tcs)
      in if ns = [] then []
         else ''  '' @ label @ '': ''
              @ spec_laid_out (spec_wrap_flags (length label + 4) ns) ns @ [NL])"
proof (induction tcs)
  case Nil
  show ?case by simp
next
  case (Cons tc tcs)
  show ?case
  proof (cases "result tc = rt")
    case False
    then show ?thesis using Cons.IH by simp
  next
    case True
    then show ?thesis
      using print_tests_loop_found [of tcs rt label "length (name tc) + 6"]
        print_tests_loop_found [of tcs rt label "length label + 4 + (length (name tc) + 2)"]
      by (simp add: Let_def spec_laid_out_Cons add.commute add.left_commute)
  qed
qed

text \<open>
  Claim C6 as it is stated fails. The label \<open>Failures\<close> takes 12 columns; a name of 63
  characters and its trailing blank end at column 76, not past it, and still the name is
  wrapped.
\<close>

theorem print_tests_wraps_at_76:
  "print_tests suite_long Failure ''Failures''
     = ''  Failures: '' @ NL # ''    '' @ replicate 63 CHR ''x'' @ '' '' @ [NL]
   \<and> length (''  Failures: '' @ replicate 63 CHR ''x'' @ '' '') = 76
   \<and> claimed_wrap_flags (length ''Failures'' + 4) (names_of suite_long Failure) = [False]
   \<and> print_tests suite_long Failure ''Failures''
     \<noteq> ''  Failures: ''
       @ spec_laid_out (claimed_wrap_flags (length ''Failures'' + 4) (names_of suite_long Failure))
           (names_of suite_long Failure)
       @ [NL]"
  by code_simp

text \<open>
  Claim C6, amended. \<open>print_tests\<close> writes nothing when no test case has the result
  type. Otherwise it writes the label, then every name of that result type whole and
  followed by a blank, then a newline. The position counter starts at the width of the
  label, every name adds its length plus two to it, and a newline with four blanks is
  written before a name exactly when the counter so increased is greater than 76; the
  counter is then set to the length of that name plus six.
\<close>

theorem print_tests_layout:
  "print_tests ts result_type type_label =
     (if names_of ts result_type = [] then []
      else ''  '' @ type_label @ '': ''
           @ spec_laid_out (spec_wrap_flags (length type_label + 4) (names_of ts result_type))
               (names_of ts result_type)
           @ [NL])"
  using print_tests_loop_first [of "testcases ts" result_type type_label 0]
  by (simp add: print_tests_def names_of_def Let_def)

text \<open>Six names of eleven characters: the fifth is the first one wrapped.\<close>

theorem print_tests_layout_witness:
  "print_tests suite_wrap Failure ''Failures''
     = ''  Failures: generic/001 generic/002 generic/003 generic/004 '' @ NL
       # ''    generic/005 generic/006 '' @ [NL]
   \<and> spec_wrap_flags (length ''Failures'' + 4) (names_of suite_wrap Failure)
     = [False, False, False, False, True, False]"
proof -
  have "spec_wrap_flags (length ''Failures'' + 4) (names_of suite_wrap Failure)
      = [False, False, False, False, True, False]"
    by code_simp
  moreover have "names_of suite_wrap Failure
      = [''generic/001'', ''generic/002'', ''generic/003'', ''generic/004'',
         ''generic/005'', ''generic/006'']"
    by code_simp
  ultimately show ?thesis
    using print_tests_layout [of suite_wrap Failure "''Failures''"]
    by (simp add: spec_laid_out_def)
qed

section \<open>The summary of one suite\<close>

lemma config_name_spec: "fmt_s (config_name ts) = spec_config_name ts"
  by (simp add: config_name_def spec_config_name_def get_property_def first_value_spec fmt_s_def
      split: option.splits)

text \<open>
  Claim C7. For every suite with a \<open>tests\<close> counter \<open>n\<close>, \<open>print_summary\<close> writes first the
  summary line: the configuration name, a colon, \<open>n tests\<close>, then the clauses for
  failures, errors and skipped in that order, each one present exactly when its count is
  greater than zero, then the seconds, which are always there. The configuration name is
  the first value of the property \<open>TESTCFG\<close> if there is one, otherwise the first value of
  \<open>FSTESTCFG\<close>, and the text \<open>None\<close> of the lookup when both are absent.
\<close>

theorem print_summary_line:
  "tests ts = Some n \<Longrightarrow>
   \<exists>detail. print_summary ts verbose = Inr (spec_summary_line ts n @ detail)"
  by (simp add: print_summary_def spec_summary_line_def spec_clause_def config_name_spec)

text \<open>The example of the specification: no failure, so no clause for failures.\<close>

theorem print_summary_line_witness:
  "tests suite_bigalloc = Some 244
   \<and> (\<exists>detail. print_summary suite_bigalloc False
         = Inr (spec_summary_line suite_bigalloc 244 @ detail))
   \<and> spec_summary_line suite_bigalloc 244
     = ''ext4/bigalloc: 244 tests, 5 errors, 25 skipped, 880 seconds'' @ [NL]"
proof -
  have t: "tests suite_bigalloc = Some 244" by code_simp
  have l: "spec_summary_line suite_bigalloc 244
      = ''ext4/bigalloc: 244 tests, 5 errors, 25 skipped, 880 seconds'' @ [NL]"
    by code_simp
  show ?thesis using t l print_summary_line [OF t, of False] by blast
qed

text \<open>
  Claim C1, at the suite of the docstring's example: 5 errors and no failure, printed in
  compact mode. The claim says that the names of the five erroring tests are listed
  after \<open>Errors:\<close>; \<open>print_summary\<close> writes the summary line and nothing else, since it
  lists the errors only inside the branch for a positive count of failures. The list
  that is not written is the one \<open>print_tests\<close> gives for the suite.
\<close>

theorem print_summary_errors_only:
  "print_summary suite_bigalloc False
     = Inr (''ext4/bigalloc: 244 tests, 5 errors, 25 skipped, 880 seconds'' @ [NL])
   \<and> print_tests suite_bigalloc Error ''Errors''
     = ''  Errors: generic/219 generic/235 generic/422 generic/451 generic/456 '' @ [NL]"
  by code_simp

section \<open>The trailer\<close>

text \<open>
  Claim C9, at a collection whose only entry is \<open>FSTESTVER\<close> with the empty value. The
  claim says that no line is printed for an empty value; \<open>print_trailer\<close> prints the
  line \<open>FSTESTVER:\<close>, where \<open>print_property_line\<close> prints nothing for the same entry.
  With an absent collection the trailer holds the line \<open>FSTESTVER: None\<close> and the call
  raises.
\<close>

theorem print_trailer_empty_version:
  "print_trailer (Some [Property ''FSTESTVER'' '''']) = (NL # ''FSTESTVER: '' @ [NL], None)
   \<and> print_property_line (Some [Property ''FSTESTVER'' '''']) ''FSTESTVER'' = []
   \<and> print_trailer None = (NL # ''FSTESTVER: None'' @ [NL], Some TypeError)"
  by code_simp

section \<open>The report as a whole\<close>

text \<open>
  Claim C8. For every call in which no record file is found under the results
  directory, \<open>gen_results_summary\<close> returns 0, writes nothing, opens no output file
  and does nothing on the archive path.
\<close>

theorem gen_results_summary_no_results:
  "get_results w results_dir = [] \<Longrightarrow>
   gen_results_summary w results_dir output_fn merge_fn verbose
     = \<lparr>ret = Inr 0, opened = None, written = [], archive_ops = []\<rparr>"
  by (simp add: gen_results_summary_def)

text \<open>A directory with a log in it and no record file, an output file and an archive named.\<close>

theorem gen_results_summary_no_results_witness:
  "get_results world_empty ''results'' = []
   \<and> gen_results_summary world_empty ''results'' (Some ''summary'') (Some ''results.xml'') True
     = \<lparr>ret = Inr 0, opened = None, written = [], archive_ops = []\<rparr>"
proof -
  have e: "get_results world_empty ''results'' = []" by code_simp
  show ?thesis
    using e gen_results_summary_no_results [OF e, of "Some ''summary''" "Some ''results.xml''" True]
    by blast
qed

lemma with_keys_Inr:
  "with_keys f xs = Inr kxs \<Longrightarrow>
   map snd kxs = xs \<and> (\<forall>p \<in> set kxs. f (snd p) = Inr (fst p))"
proof (induction xs arbitrary: kxs)
  case Nil
  then show ?case by simp
next
  case (Cons x xs)
  then show ?case by (auto split: sum.splits)
qed

lemma sorted_reports_ltm:
  assumes "sorted_reports w True reports = Inr order"
  shows "mset order = mset reports \<and> sorted (map hostname order)"
  using assms by (auto simp: sorted_reports_def)

lemma sorted_reports_timestamp:
  assumes "sorted_reports w False reports = Inr order"
  shows "\<exists>keys. map (\<lambda>ts. parse_timestamp w (timestamp ts)) order = map Inr keys
           \<and> sorted keys \<and> mset order = mset reports"
proof -
  from assms obtain kxs where
    k: "with_keys (\<lambda>ts. parse_timestamp w (timestamp ts)) reports = Inr kxs"
    and o: "order = map snd (sort_key fst kxs)"
    by (auto simp: sorted_reports_def split: sum.splits)
  from with_keys_Inr [OF k] have m: "map snd kxs = reports"
    and a: "\<forall>p \<in> set kxs. parse_timestamp w (timestamp (snd p)) = Inr (fst p)"
    by simp_all
  let ?s = "sort_key fst kxs"
  have "\<forall>p \<in> set ?s. parse_timestamp w (timestamp (snd p)) = Inr (fst p)"
    using a by simp
  then have "map (\<lambda>ts. parse_timestamp w (timestamp ts)) order = map Inr (map fst ?s)"
    by (simp add: o)
  moreover have "sorted (map fst ?s)" by simp
  moreover have "mset order = mset reports"
  proof -
    have "mset order = image_mset snd (mset ?s)" by (simp add: o)
    also have "\<dots> = image_mset snd (mset kxs)" by simp
    also have "\<dots> = mset (map snd kxs)" by simp
    finally show ?thesis by (simp add: m)
  qed
  ultimately show ?thesis by blast
qed

lemma mset_sorted_reports:
  "sorted_reports w ltm reports = Inr order \<Longrightarrow> mset order = mset reports"
  using sorted_reports_ltm [of w reports order] sorted_reports_timestamp [of w reports order]
  by (cases ltm) auto

lemma print_reports_None:
  "print_reports order v = (body, None) \<Longrightarrow>
   \<exists>texts. map (\<lambda>ts. print_summary ts v) order = map Inr texts \<and> body = concat texts"
proof (induction order arbitrary: body)
  case Nil
  then show ?case by simp
next
  case (Cons ts order)
  from Cons.prems obtain line rest where
    t: "print_summary ts v = Inr line" and r: "print_reports order v = (rest, None)"
    and b: "body = line @ rest"
    by (auto split: sum.splits prod.splits)
  from Cons.IH [OF r] obtain texts where
    "map (\<lambda>ts. print_summary ts v) order = map Inr texts" "rest = concat texts" by blast
  then have "map (\<lambda>ts. print_summary ts v) (ts # order) = map Inr (line # texts)
      \<and> body = concat (line # texts)"
    using t b by simp
  then show ?case by blast
qed

lemma check_for_ltm_flag:
  "check_for_ltm w results_dir p = Inr (ltm, props) \<Longrightarrow>
   ltm = (readlines w (path_join results_dir ''ltm-run-stats'') \<noteq> None)"
  by (auto simp: check_for_ltm_def split: option.splits sum.splits)

text \<open>
  A call that returns has written, between the header and the totals, the summaries of
  the suites in the order \<open>sorted_reports\<close> gives, with the verbose flag of the rule for
  small runs.
\<close>

lemma gen_results_summary_success:
  assumes "load_all w (get_results w results_dir) = Inr reports"
    and "ret (gen_results_summary w results_dir output_fn merge_fn verbose) = Inr n"
  shows "\<exists>order texts hdr rest.
           written (gen_results_summary w results_dir output_fn merge_fn verbose)
             = hdr @ concat texts @ rest
         \<and> map (\<lambda>ts. print_summary ts (if total_tests reports < 30 then True else verbose)) order
             = map Inr texts
         \<and> sorted_reports w (readlines w (path_join results_dir ''ltm-run-stats'') \<noteq> None) reports
             = Inr order"
proof (cases reports)
  case Nil
  then have "written (gen_results_summary w results_dir output_fn merge_fn verbose)
      = [] @ concat [] @ []"
    using assms(1) by (simp add: gen_results_summary_def)
  moreover have "sorted_reports w (readlines w (path_join results_dir ''ltm-run-stats'') \<noteq> None)
      reports = Inr []"
    using Nil by (simp add: sorted_reports_def)
  ultimately show ?thesis using Nil by (metis list.simps(8))
next
  case (Cons r0 rs)
  let ?v = "if total_tests reports < 30 then True else verbose"
  from assms Cons obtain ltm props order body totals trl where
    c: "check_for_ltm w results_dir (child_Properties r0) = Inr (ltm, props)"
    and s: "sorted_reports w ltm reports = Inr order"
    and p: "print_reports order ?v = (body, None)"
    and wr: "written (gen_results_summary w results_dir output_fn merge_fn verbose)
              = print_header props @ body @ totals_line totals @ trl"
    by (auto simp: gen_results_summary_def Let_def
        split: sum.splits prod.splits option.splits if_splits)
  from print_reports_None [OF p] obtain texts where
    t: "map (\<lambda>ts. print_summary ts ?v) order = map Inr texts" and b: "body = concat texts"
    by blast
  have "ltm = (readlines w (path_join results_dir ''ltm-run-stats'') \<noteq> None)"
    using check_for_ltm_flag [OF c] .
  then show ?thesis using s t b wr by auto
qed

text \<open>
  Claim C4. For every set of loaded suites of a call that returns, the summaries of the
  suites stand in the report one after the other, every loaded suite once. When there is
  no marker file they stand in ascending order of the parsed timestamps of the suites;
  when there is one they stand in ascending order of the host names, whatever the
  timestamps are.
\<close>

theorem gen_results_summary_order:
  assumes "load_all w (get_results w results_dir) = Inr reports"
    and "ret (gen_results_summary w results_dir output_fn merge_fn verbose) = Inr n"
  shows "\<exists>order texts hdr rest v.
           written (gen_results_summary w results_dir output_fn merge_fn verbose)
             = hdr @ concat texts @ rest
         \<and> map (\<lambda>ts. print_summary ts v) order = map Inr texts
         \<and> mset order = mset reports
         \<and> (if readlines w (path_join results_dir ''ltm-run-stats'') = None
            then \<exists>keys. map (\<lambda>ts. parse_timestamp w (timestamp ts)) order = map Inr keys
                   \<and> sorted keys
            else sorted (map hostname order))"
proof -
  let ?ltm = "readlines w (path_join results_dir ''ltm-run-stats'') \<noteq> None"
  from gen_results_summary_success [OF assms] obtain order texts hdr rest where
    w: "written (gen_results_summary w results_dir output_fn merge_fn verbose)
          = hdr @ concat texts @ rest"
    and t: "map (\<lambda>ts. print_summary ts (if total_tests reports < 30 then True else verbose)) order
          = map Inr texts"
    and s: "sorted_reports w ?ltm reports = Inr order"
    by blast
  have m: "mset order = mset reports" using mset_sorted_reports [OF s] .
  have k: "if readlines w (path_join results_dir ''ltm-run-stats'') = None
      then \<exists>keys. map (\<lambda>ts. parse_timestamp w (timestamp ts)) order = map Inr keys \<and> sorted keys
      else sorted (map hostname order)"
  proof (cases ?ltm)
    case True
    then show ?thesis using sorted_reports_ltm [of w reports order] s by auto
  next
    case False
    then show ?thesis using sorted_reports_timestamp [of w reports order] s by auto
  qed
  show ?thesis using w t m k by blast
qed

text \<open>
  The run of two suites. Without the marker file the suite of 10:00 comes before the
  suite of 11:30; with it the suite of host \<open>xfstests-ltm-01\<close> comes first, though it
  started later.
\<close>

theorem gen_results_summary_order_witness:
  "load_all world_plain (get_results world_plain ''results'') = Inr [suite_a, suite_b]
   \<and> ret (gen_results_summary world_plain ''results'' None None False) = Inr 2
   \<and> (\<exists>order texts hdr rest v.
         written (gen_results_summary world_plain ''results'' None None False)
           = hdr @ concat texts @ rest
       \<and> map (\<lambda>ts. print_summary ts v) order = map Inr texts
       \<and> mset order = mset [suite_a, suite_b]
       \<and> (if readlines world_plain (path_join ''results'' ''ltm-run-stats'') = None
          then \<exists>keys. map (\<lambda>ts. parse_timestamp world_plain (timestamp ts)) order = map Inr keys
                 \<and> sorted keys
          else sorted (map hostname order)))
   \<and> readlines world_plain (path_join ''results'' ''ltm-run-stats'') = None
   \<and> sorted_reports world_plain False [suite_a, suite_b] = Inr [suite_a, suite_b]
   \<and> load_all world_ltm (get_results world_ltm ''results'') = Inr [suite_a, suite_b]
   \<and> ret (gen_results_summary world_ltm ''results'' None None False) = Inr 2
   \<and> (\<exists>order texts hdr rest v.
         written (gen_results_summary world_ltm ''results'' None None False)
           = hdr @ concat texts @ rest
       \<and> map (\<lambda>ts. print_summary ts v) order = map Inr texts
       \<and> mset order = mset [suite_a, suite_b]
       \<and> (if readlines world_ltm (path_join ''results'' ''ltm-run-stats'') = None
          then \<exists>keys. map (\<lambda>ts. parse_timestamp world_ltm (timestamp ts)) order = map Inr keys
                 \<and> sorted keys
          else sorted (map hostname order)))
   \<and> readlines world_ltm (path_join ''results'' ''ltm-run-stats'') \<noteq> None
   \<and> sorted_reports world_ltm True [suite_a, suite_b] = Inr [suite_b, suite_a]"
proof -
  have a1: "load_all world_plain (get_results world_plain ''results'') = Inr [suite_a, suite_b]"
    by code_simp
  have b1: "ret (gen_results_summary world_plain ''results'' None None False) = Inr 2"
    by code_simp
  have c1: "readlines world_plain (path_join ''results'' ''ltm-run-stats'') = None"
    by code_simp
  have d1: "sorted_reports world_plain False [suite_a, suite_b] = Inr [suite_a, suite_b]"
    by code_simp
  have a2: "load_all world_ltm (get_results world_ltm ''results'') = Inr [suite_a, suite_b]"
    by code_simp
  have b2: "ret (gen_results_summary world_ltm ''results'' None None False) = Inr 2"
    by code_simp
  have c2: "readlines world_ltm (path_join ''results'' ''ltm-run-stats'') \<noteq> None"
    by code_simp
  have d2: "sorted_reports world_ltm True [suite_a, suite_b] = Inr [suite_b, suite_a]"
    by code_simp
  show ?thesis
    by (intro conjI a1 b1 c1 d1 a2 b2 c2 d2
        gen_results_summary_order [OF a1 b1] gen_results_summary_order [OF a2 b2])
qed

text \<open>
  Claim C5. For every call that returns: when the sum of the \<open>tests\<close> counters of the
  loaded suites is less than 30, the call does what it does with the verbose flag set,
  whatever flag the caller gave, and every suite is printed in verbose mode; when the
  sum is at least 30, every suite is printed with the flag the caller gave.
\<close>

theorem gen_results_summary_verbose:
  assumes "load_all w (get_results w results_dir) = Inr reports"
    and "ret (gen_results_summary w results_dir output_fn merge_fn verbose) = Inr n"
  shows "(total_tests reports < 30 \<longrightarrow>
            gen_results_summary w results_dir output_fn merge_fn verbose
              = gen_results_summary w results_dir output_fn merge_fn True)
       \<and> (\<exists>order texts hdr rest.
            written (gen_results_summary w results_dir output_fn merge_fn verbose)
              = hdr @ concat texts @ rest
          \<and> mset order = mset reports
          \<and> (if total_tests reports < 30
             then map (\<lambda>ts. print_summary ts True) order = map Inr texts
             else map (\<lambda>ts. print_summary ts verbose) order = map Inr texts))"
proof
  show "total_tests reports < 30 \<longrightarrow>
      gen_results_summary w results_dir output_fn merge_fn verbose
        = gen_results_summary w results_dir output_fn merge_fn True"
    using assms(1)
    by (cases reports) (simp_all add: gen_results_summary_def Let_def del: total_tests.simps)
next
  from gen_results_summary_success [OF assms] obtain order texts hdr rest where
    w: "written (gen_results_summary w results_dir output_fn merge_fn verbose)
          = hdr @ concat texts @ rest"
    and t: "map (\<lambda>ts. print_summary ts (if total_tests reports < 30 then True else verbose)) order
          = map Inr texts"
    and s: "sorted_reports w (readlines w (path_join results_dir ''ltm-run-stats'') \<noteq> None) reports
          = Inr order"
    by blast
  have m: "mset order = mset reports" using mset_sorted_reports [OF s] .
  have "if total_tests reports < 30
      then map (\<lambda>ts. print_summary ts True) order = map Inr texts
      else map (\<lambda>ts. print_summary ts verbose) order = map Inr texts"
    using t by (simp split: if_splits)
  then show "\<exists>order texts hdr rest.
      written (gen_results_summary w results_dir output_fn merge_fn verbose)
        = hdr @ concat texts @ rest
      \<and> mset order = mset reports
      \<and> (if total_tests reports < 30
         then map (\<lambda>ts. print_summary ts True) order = map Inr texts
         else map (\<lambda>ts. print_summary ts verbose) order = map Inr texts)"
    using w m by blast
qed

text \<open>
  A run of one suite with 2 tests, asked for in compact mode and printed in verbose
  mode, and the run of two suites with 42 tests, printed in compact mode as asked.
\<close>

theorem gen_results_summary_verbose_witness:
  "load_all world_small (get_results world_small ''results'') = Inr [suite_a]
   \<and> ret (gen_results_summary world_small ''results'' None None False) = Inr 1
   \<and> total_tests [suite_a] < 30
   \<and> gen_results_summary world_small ''results'' None None False
     = gen_results_summary world_small ''results'' None None True
   \<and> (\<exists>order texts hdr rest.
         written (gen_results_summary world_small ''results'' None None False)
           = hdr @ concat texts @ rest
       \<and> mset order = mset [suite_a]
       \<and> map (\<lambda>ts. print_summary ts True) order = map Inr texts)
   \<and> load_all world_plain (get_results world_plain ''results'') = Inr [suite_a, suite_b]
   \<and> ret (gen_results_summary world_plain ''results'' None None False) = Inr 2
   \<and> 30 \<le> total_tests [suite_a, suite_b]
   \<and> (\<exists>order texts hdr rest.
         written (gen_results_summary world_plain ''results'' None None False)
           = hdr @ concat texts @ rest
       \<and> mset order = mset [suite_a, suite_b]
       \<and> map (\<lambda>ts. print_summary ts False) order = map Inr texts)"
proof -
  have a1: "load_all world_small (get_results world_small ''results'') = Inr [suite_a]"
    by code_simp
  have b1: "ret (gen_results_summary world_small ''results'' None None False) = Inr 1"
    by code_simp
  have c1: "total_tests [suite_a] < 30"
    by code_simp
  have a2: "load_all world_plain (get_results world_plain ''results'') = Inr [suite_a, suite_b]"
    by code_simp
  have b2: "ret (gen_results_summary world_plain ''results'' None None False) = Inr 2"
    by code_simp
  have c2: "30 \<le> total_tests [suite_a, suite_b]"
    by code_simp
  have n2: "\<not> total_tests [suite_a, suite_b] < 30"
    using c2 by linarith
  have d1: "gen_results_summary world_small ''results'' None None False
      = gen_results_summary world_small ''results'' None None True"
    using gen_results_summary_verbose [OF a1 b1] c1 by blast
  have e1: "\<exists>order texts hdr rest.
         written (gen_results_summary world_small ''results'' None None False)
           = hdr @ concat texts @ rest
       \<and> mset order = mset [suite_a]
       \<and> map (\<lambda>ts. print_summary ts True) order = map Inr texts"
    using conjunct2 [OF gen_results_summary_verbose [OF a1 b1]] by (simp only: c1 if_True)
  have e2: "\<exists>order texts hdr rest.
         written (gen_results_summary world_plain ''results'' None None False)
           = hdr @ concat texts @ rest
       \<and> mset order = mset [suite_a, suite_b]
       \<and> map (\<lambda>ts. print_summary ts False) order = map Inr texts"
    using conjunct2 [OF gen_results_summary_verbose [OF a2 b2]] by (simp only: n2 if_False)
  show ?thesis
    by (intro conjI a1 b1 c1 d1 e1 a2 b2 c2 e2)
qed

end
